theory Spec2Isabelle
  imports Main "HOL-Library.AList"
begin

section \<open>Data model\<close>

text \<open>
  A shallow embedding of the agent loop of goai-kit: \<^verbatim>\<open>Invoke\<close>, \<^verbatim>\<open>executeLoop\<close> and
  \<^verbatim>\<open>executeToolCalls\<close> of package \<^verbatim>\<open>kit\<close>, its tool-naming helpers
  (\<^verbatim>\<open>typeNameToToolName\<close>, \<^verbatim>\<open>BuildToolSchema\<close>), and the \<^verbatim>\<open>Manager\<close> of package
  \<^verbatim>\<open>callback\<close>. Go strings are byte sequences, here \<open>string\<close>; Go's \<open>error\<close> values
  are a datatype with one constructor per \<^verbatim>\<open>fmt.Errorf\<close> of the source and one for the
  errors that collaborators (the completion endpoint, \<^verbatim>\<open>encoding/json\<close>, a tool) hand in.
  A nil \<^verbatim>\<open>error\<close> is \<open>None\<close>.
\<close>

datatype error =
    External string
  | BothPromptAndMessages
  | NeitherPromptNorMessages
  | OpenAIAPIError error
  | NoChoices
  | ParseOutputJSON error
  | MaxIterationsReached int
  | ParseToolArguments error
  | ToolNotFound string
  | UnmarshalToolArguments error
  | ToolFailed string error
  | ConvertToolResult error

text \<open>
  A tool's result is an \<^verbatim>\<open>interface{}\<close>: nil, a string, a byte slice, or anything else.
  A value of any other type is kept by an opaque handle; what \<^verbatim>\<open>json.Marshal\<close> makes of
  it is given by the environment. A \<open>char\<close> is a byte.
\<close>

datatype go_value = VNil | VString string | VBytes "char list" | VOther nat

record tool_call =
  tc_ID :: string
  tc_Name :: string
  tc_Arguments :: string

datatype message =
    SystemMessage string
  | UserMessage string
  | AssistantMessage string "tool_call list"
  | ToolMessage string string

record choice =
  finish_reason :: string
  content :: string
  tool_calls :: "tool_call list"

record completion =
  choices :: "choice list"
  usage :: "nat \<times> nat \<times> nat"

type_synonym json_object = "(string \<times> string) list"

record AgentToolInfo =
  info_Name :: string
  info_Description :: string

text \<open>
  A \<^verbatim>\<open>ToolExecutor\<close> is an interface value. The model keeps what the agent asks of it:
  its \<^verbatim>\<open>AgentToolInfo()\<close>, the name of its dynamic type (after dereferencing a pointer),
  the JSON schema reflected from it, whether the arguments unmarshal into a fresh copy of
  it, and what \<^verbatim>\<open>Execute\<close> returns on the copy filled from those arguments. A tool may
  answer the same arguments differently each time it runs, so \<open>Execute\<close> also takes the
  moment of the call: the number of events broadcast before it, which is different for
  every execution of one invocation.
\<close>

record tool_executor =
  tool_info :: AgentToolInfo
  type_Name :: string
  tool_JSONSchema :: string
  unmarshal_copy :: "string \<Rightarrow> error option"
  Execute :: "nat \<Rightarrow> string \<Rightarrow> go_value \<times> error option"

record ToolSchema =
  schema_Name :: string
  schema_ID :: string
  schema_Description :: string
  schema_JSONSchema :: string

text \<open>An \<^verbatim>\<open>AgentCallback\<close> is an observer object with a \<^verbatim>\<open>Name()\<close>.\<close>

record callback =
  cb_Name :: string
  cb_handle :: nat

record client =
  DefaultModel :: string

text \<open>
  The agent. Its two Go maps \<^verbatim>\<open>tools\<close> and \<^verbatim>\<open>schemas\<close> are written only by
  \<^verbatim>\<open>CreateAgentWithOutput\<close>, always together and under the same key, so they are kept as
  one association list from the tool id to the executor and its schema.
  \<open>string_output\<close> says whether the type parameter \<^verbatim>\<open>Output\<close> is \<^verbatim>\<open>string\<close>
  (\<^verbatim>\<open>isStringType\<close> of its zero value). The temperature is a float that is only passed
  on to the endpoint and is left out.
\<close>

record agent =
  registry :: "(string \<times> tool_executor \<times> ToolSchema) list"
  model :: string
  callbacks :: "callback list"
  maxIterations :: int
  string_output :: bool

record InvokeConfig =
  Prompt :: string
  Messages :: "message list"
  Callbacks :: "callback list"
  ParentRunID :: "nat option"
  SystemPrompt :: string
  MaxIterations :: "int option"

record chat_params =
  p_Model :: string
  p_Messages :: "message list"
  p_Tools :: "(string \<times> string \<times> string) list"
  p_ResponseFormat :: bool

text \<open>
  The collaborators of one invocation: the completion endpoint (asked at the given
  iteration with the given request), \<^verbatim>\<open>json.Unmarshal\<close> into a
  \<^verbatim>\<open>map[string]interface{}\<close> and into the output type, \<^verbatim>\<open>json.Marshal\<close>, and the first
  identifier that \<^verbatim>\<open>uuid.New()\<close> hands out.
\<close>

record env =
  complete :: "int \<Rightarrow> chat_params \<Rightarrow> error + completion"
  json_unmarshal_args :: "string \<Rightarrow> error + json_object"
  json_unmarshal_output :: "string \<Rightarrow> error + go_value"
  json_marshal :: "go_value \<Rightarrow> error + string"
  uuid_seed :: nat

section \<open>Tool names and registration\<close>

definition isUpper :: "char \<Rightarrow> bool" where
  "isUpper r = ((65::nat) \<le> of_char r \<and> of_char r \<le> (90::nat))"

definition isLower :: "char \<Rightarrow> bool" where
  "isLower r = ((97::nat) \<le> of_char r \<and> of_char r \<le> (122::nat))"

text \<open>
  Tool and type names are taken to be ASCII text, where a rune is a byte and
  \<^verbatim>\<open>strings.ToLower\<close> changes the letters \<^verbatim>\<open>A\<close> to \<^verbatim>\<open>Z\<close> only.
\<close>

definition toLowerChar :: "char \<Rightarrow> char" where
  "toLowerChar r = (if isUpper r then char_of (of_char r + (32::nat)) else r)"

definition ToLower :: "string \<Rightarrow> string" where
  "ToLower s = map toLowerChar s"

text \<open>
  \<^verbatim>\<open>typeNameToToolName\<close>: the loop runs over the indices of the type name; an upper-case
  letter that is not the first gets an underscore in front of it when the byte before it
  or the byte after it is a lower-case letter.
\<close>

definition underscore_before :: "string \<Rightarrow> nat \<Rightarrow> bool" where
  "underscore_before typeName i =
     (i > 0 \<and> isUpper (typeName ! i) \<and>
      ((i > 0 \<and> isLower (typeName ! (i - 1))) \<or>
       (int i < int (length typeName) - 1 \<and> isLower (typeName ! (i + 1)))))"

definition typeNameToToolName :: "string \<Rightarrow> string" where
  "typeNameToToolName typeName =
     (if typeName = [] then ''unnamed_tool''
      else ToLower (concat (map (\<lambda>i. (if underscore_before typeName i then ''_'' else [])
                                        @ [typeName ! i])
                                [0..<length typeName])))"

definition GetAgentToolInfo :: "tool_executor \<Rightarrow> AgentToolInfo" where
  "GetAgentToolInfo tool =
     (let info = tool_info tool
      in if info_Name info = [] then info\<lparr>info_Name := typeNameToToolName (type_Name tool)\<rparr>
         else info)"

text \<open>\<^verbatim>\<open>strings.NewReplacer(" ", "_", "-", "_").Replace\<close>\<close>

definition Replace_space_hyphen :: "string \<Rightarrow> string" where
  "Replace_space_hyphen s = map (\<lambda>c. if c = CHR '' '' \<or> c = CHR ''-'' then CHR ''_'' else c) s"

definition BuildToolSchema :: "tool_executor \<Rightarrow> ToolSchema" where
  "BuildToolSchema tool =
     (let info = GetAgentToolInfo tool;
          toolID = ToLower (Replace_space_hyphen (info_Name info))
      in \<lparr>schema_Name = info_Name info, schema_ID = toolID,
          schema_Description = info_Description info,
          schema_JSONSchema = tool_JSONSchema tool\<rparr>)"

text \<open>The registration loop of \<^verbatim>\<open>CreateAgentWithOutput\<close>: \<^verbatim>\<open>toolMap[toolSchema.ID] = tool\<close>.\<close>

fun register_tools ::
  "(string \<times> tool_executor \<times> ToolSchema) list \<Rightarrow> tool_executor list
     \<Rightarrow> (string \<times> tool_executor \<times> ToolSchema) list" where
  "register_tools reg [] = reg"
| "register_tools reg (tool # rest) =
     (let toolSchema = BuildToolSchema tool
      in register_tools (AList.update (schema_ID toolSchema) (tool, toolSchema) reg) rest)"

definition CreateAgentWithOutput :: "bool \<Rightarrow> client \<Rightarrow> tool_executor list \<Rightarrow> agent" where
  "CreateAgentWithOutput is_string c ts =
     \<lparr>registry = register_tools [] ts,
      model = (if DefaultModel c \<noteq> [] then DefaultModel c else ''gpt-4o''),
      callbacks = [],
      maxIterations = 10,
      string_output = is_string\<rparr>"

definition CreateAgent :: "client \<Rightarrow> tool_executor list \<Rightarrow> agent" where
  "CreateAgent c ts = CreateAgentWithOutput True c ts"

definition WithModel :: "agent \<Rightarrow> string \<Rightarrow> agent" where
  "WithModel a m = a\<lparr>model := m\<rparr>"

definition WithCallbacks :: "agent \<Rightarrow> callback list \<Rightarrow> agent" where
  "WithCallbacks a cbs = a\<lparr>callbacks := cbs\<rparr>"

definition WithMaxIterations :: "agent \<Rightarrow> int \<Rightarrow> agent" where
  "WithMaxIterations a n = a\<lparr>maxIterations := n\<rparr>"

section \<open>Merging callbacks\<close>

text \<open>
  \<^verbatim>\<open>mergeCallbacks\<close>: the invocation's callbacks are copied, their names are collected in a
  set, and each of the agent's callbacks is appended when its name is not in that set.
\<close>

fun seen_names :: "string set \<Rightarrow> callback list \<Rightarrow> string set" where
  "seen_names seen [] = seen"
| "seen_names seen (cb # rest) = seen_names (insert (cb_Name cb) seen) rest"

fun append_unseen :: "string set \<Rightarrow> callback list \<Rightarrow> callback list \<Rightarrow> callback list" where
  "append_unseen seen allCallbacks [] = allCallbacks"
| "append_unseen seen allCallbacks (cb # rest) =
     (if cb_Name cb \<notin> seen then append_unseen seen (allCallbacks @ [cb]) rest
      else append_unseen seen allCallbacks rest)"

definition mergeCallbacks :: "agent \<Rightarrow> callback list \<Rightarrow> callback list" where
  "mergeCallbacks a invokeCallbacks =
     (let allCallbacks = [] @ invokeCallbacks;
          seenCallbackNames = seen_names {} invokeCallbacks
      in append_unseen seenCallbackNames allCallbacks (callbacks a))"

section \<open>The callback manager\<close>

text \<open>
  The lifecycle events, with the payload the manager puts into the context bag. A
  broadcast is an event together with the \<^verbatim>\<open>run_id\<close> and the optional
  \<^verbatim>\<open>parent_run_id\<close> that \<^verbatim>\<open>addRunContext\<close> adds.
\<close>

datatype event =
    EvRunStart string string bool
  | EvRunEnd go_value int
  | EvGenerationStart int "message list" string
  | EvGenerationEnd string string "tool_call list" "nat \<times> nat \<times> nat"
  | EvToolCallStart string "json_object option" string
  | EvToolCallEnd string "json_object option" go_value string "error option"
  | EvError error string

type_synonym broadcast = "event \<times> nat \<times> nat option"

text \<open>
  The manager. Run ids are the values of \<^verbatim>\<open>uuid.New()\<close>, modelled by a counter
  (\<open>uuid_next\<close> is the next fresh one). \<open>emitted\<close> is the sequence of broadcasts made
  so far; every registered callback receives each of them, in the order of the list.
\<close>

record manager =
  m_callbacks :: "callback list"
  runID :: nat
  parentRunID :: "nat option"
  nestedRunID :: "string \<rightharpoonup> nat"
  nestedParents :: "nat \<rightharpoonup> nat"
  uuid_next :: nat
  emitted :: "broadcast list"

definition NewManager :: "callback list \<Rightarrow> nat option \<Rightarrow> nat \<Rightarrow> manager" where
  "NewManager cbs parent seed =
     \<lparr>m_callbacks = cbs, runID = seed, parentRunID = parent,
      nestedRunID = Map.empty, nestedParents = Map.empty,
      uuid_next = Suc seed, emitted = []\<rparr>"

definition createNestedRun :: "manager \<Rightarrow> string \<Rightarrow> nat \<times> manager" where
  "createNestedRun cm toolCallID =
     (let nestedID = uuid_next cm
      in (nestedID,
          cm\<lparr>nestedRunID := (nestedRunID cm)(toolCallID \<mapsto> nestedID),
             nestedParents := (nestedParents cm)(nestedID \<mapsto> runID cm),
             uuid_next := Suc (uuid_next cm)\<rparr>))"

definition getNestedRunID :: "manager \<Rightarrow> string \<Rightarrow> nat option" where
  "getNestedRunID cm toolCallID = nestedRunID cm toolCallID"

definition addRunContext :: "manager \<Rightarrow> event \<Rightarrow> nat option \<Rightarrow> broadcast" where
  "addRunContext cm ev nested =
     (case nested of
        Some n \<Rightarrow> (ev, n, Some (runID cm))
      | None \<Rightarrow> (ev, runID cm, parentRunID cm))"

text \<open>
  Every handler ends with the loop \<^verbatim>\<open>for _, cb := range cm.callbacks\<close>, which hands the
  context to each callback in turn. The manager records the broadcast; \<open>deliveries\<close>
  lists what the callbacks have received, in the order of the calls.
\<close>

definition notify :: "manager \<Rightarrow> broadcast \<Rightarrow> manager" where
  "notify cm ctx = cm\<lparr>emitted := emitted cm @ [ctx]\<rparr>"

definition deliveries :: "manager \<Rightarrow> (callback \<times> broadcast) list" where
  "deliveries cm = concat (map (\<lambda>ctx. map (\<lambda>cb. (cb, ctx)) (m_callbacks cm)) (emitted cm))"

definition OnRunStart :: "manager \<Rightarrow> string \<Rightarrow> string \<Rightarrow> bool \<Rightarrow> manager" where
  "OnRunStart cm mdl input hasOutputClass =
     notify cm (addRunContext cm (EvRunStart mdl input hasOutputClass) None)"

definition OnRunEnd :: "manager \<Rightarrow> go_value \<Rightarrow> int \<Rightarrow> manager" where
  "OnRunEnd cm output totalIterations =
     notify cm (addRunContext cm (EvRunEnd output totalIterations) None)"

definition OnGenerationStart :: "manager \<Rightarrow> int \<Rightarrow> message list \<Rightarrow> string \<Rightarrow> manager" where
  "OnGenerationStart cm iteration messages mdl =
     notify cm (addRunContext cm (EvGenerationStart iteration messages mdl) None)"

definition OnGenerationEnd ::
  "manager \<Rightarrow> string \<Rightarrow> string \<Rightarrow> tool_call list \<Rightarrow> nat \<times> nat \<times> nat \<Rightarrow> manager" where
  "OnGenerationEnd cm finishReason cont toolCalls usg =
     notify cm (addRunContext cm (EvGenerationEnd finishReason cont toolCalls usg) None)"

definition OnToolCallStart :: "manager \<Rightarrow> string \<Rightarrow> json_object option \<Rightarrow> string \<Rightarrow> manager" where
  "OnToolCallStart cm toolName arguments toolCallID =
     (case createNestedRun cm toolCallID of
        (nestedRunID', cm') \<Rightarrow>
          notify cm' (addRunContext cm' (EvToolCallStart toolName arguments toolCallID)
                        (Some nestedRunID')))"

definition OnToolCallEnd ::
  "manager \<Rightarrow> string \<Rightarrow> json_object option \<Rightarrow> go_value \<Rightarrow> string \<Rightarrow> error option \<Rightarrow> manager" where
  "OnToolCallEnd cm toolName arguments result toolCallID err =
     (let nestedRunID' = getNestedRunID cm toolCallID
      in notify cm (addRunContext cm (EvToolCallEnd toolName arguments result toolCallID err)
                      nestedRunID'))"

definition OnError :: "manager \<Rightarrow> error \<Rightarrow> string \<Rightarrow> manager" where
  "OnError cm err stage = notify cm (addRunContext cm (EvError err stage) None)"

text \<open>
  A call of one of the manager's seven handlers, named by the event it broadcasts, and
  the state of a manager after a sequence of such calls.
\<close>

fun handle :: "manager \<Rightarrow> event \<Rightarrow> manager" where
  "handle cm (EvRunStart mdl input h) = OnRunStart cm mdl input h"
| "handle cm (EvRunEnd output n) = OnRunEnd cm output n"
| "handle cm (EvGenerationStart i msgs mdl) = OnGenerationStart cm i msgs mdl"
| "handle cm (EvGenerationEnd f c tcs u) = OnGenerationEnd cm f c tcs u"
| "handle cm (EvToolCallStart n a i) = OnToolCallStart cm n a i"
| "handle cm (EvToolCallEnd n a r i e) = OnToolCallEnd cm n a r i e"
| "handle cm (EvError e stage) = OnError cm e stage"

fun handle_all :: "manager \<Rightarrow> event list \<Rightarrow> manager" where
  "handle_all cm [] = cm"
| "handle_all cm (ev # evs) = handle_all (handle cm ev) evs"

text \<open>
  Two readings of a sequence of handler calls, for stating what the nested-run map holds:
  the tool-call ids with an open tool execution (started by \<^verbatim>\<open>OnToolCallStart\<close> and not
  ended since by \<^verbatim>\<open>OnToolCallEnd\<close>), and the ids started at all.
\<close>

fun open_calls :: "string set \<Rightarrow> event list \<Rightarrow> string set" where
  "open_calls S [] = S"
| "open_calls S (EvToolCallStart n a i # evs) = open_calls (insert i S) evs"
| "open_calls S (EvToolCallEnd n a r i e # evs) = open_calls (S - {i}) evs"
| "open_calls S (_ # evs) = open_calls S evs"

fun started_calls :: "event list \<Rightarrow> string set" where
  "started_calls [] = {}"
| "started_calls (EvToolCallStart n a i # evs) = insert i (started_calls evs)"
| "started_calls (_ # evs) = started_calls evs"

section \<open>Tool dispatch\<close>

definition resultToString :: "env \<Rightarrow> go_value \<Rightarrow> error + string" where
  "resultToString e result =
     (case result of
        VNil \<Rightarrow> Inr []
      | VString v \<Rightarrow> Inr v
      | VBytes v \<Rightarrow> Inr v
      | VOther h \<Rightarrow> (case json_marshal e result of Inl err \<Rightarrow> Inl err | Inr data \<Rightarrow> Inr data))"

text \<open>
  The search \<^verbatim>\<open>for id, toolSchema := range a.schemas\<close> for the schema with the called
  name; the empty string when there is none.
\<close>

fun findToolID :: "(string \<times> tool_executor \<times> ToolSchema) list \<Rightarrow> string \<Rightarrow> string" where
  "findToolID [] toolName = []"
| "findToolID ((tid, entry) # rest) toolName =
     (if schema_Name (snd entry) = toolName then tid else findToolID rest toolName)"

text \<open>
  The body of the loop of \<^verbatim>\<open>executeToolCalls\<close> for one tool call: the error that ends
  the batch, or the tool message to append. \<open>run_executor\<close> is its second half, from
  the copy of the executor on. \<open>findToolID\<close> returns a key of the registry or the empty
  string, so the lookup of the executor under a non-empty id finds one; the model gives
  the remaining case the outcome of the tool that is not found.
\<close>

definition run_executor ::
  "env \<Rightarrow> tool_executor \<Rightarrow> tool_call \<Rightarrow> json_object \<Rightarrow> manager
     \<Rightarrow> (error + message) \<times> manager" where
  "run_executor e executor toolCall args cm1 =
     (let toolName = tc_Name toolCall; toolCallID = tc_ID toolCall
      in case unmarshal_copy executor (tc_Arguments toolCall) of
           Some err \<Rightarrow>
             (Inl (UnmarshalToolArguments err),
              OnToolCallEnd cm1 toolName (Some args) VNil toolCallID (Some err))
         | None \<Rightarrow>
             (case Execute executor (length (emitted cm1)) (tc_Arguments toolCall) of
                (result, err) \<Rightarrow>
                  (let cm2 = OnToolCallEnd cm1 toolName (Some args) result toolCallID err
                   in case err of
                        Some err' \<Rightarrow> (Inl (ToolFailed toolName err'), cm2)
                      | None \<Rightarrow>
                          (case resultToString e result of
                             Inl err' \<Rightarrow> (Inl (ConvertToolResult err'), cm2)
                           | Inr resultStr \<Rightarrow> (Inr (ToolMessage resultStr toolCallID), cm2)))))"

definition tool_not_found ::
  "tool_call \<Rightarrow> json_object \<Rightarrow> manager \<Rightarrow> (error + message) \<times> manager" where
  "tool_not_found toolCall args cm1 =
     (Inl (ToolNotFound (tc_Name toolCall)),
      OnToolCallEnd cm1 (tc_Name toolCall) (Some args) VNil (tc_ID toolCall)
        (Some (ToolNotFound (tc_Name toolCall))))"

definition executeToolCall ::
  "agent \<Rightarrow> env \<Rightarrow> tool_call \<Rightarrow> manager \<Rightarrow> (error + message) \<times> manager" where
  "executeToolCall a e toolCall cm =
     (let toolName = tc_Name toolCall; toolCallID = tc_ID toolCall
      in case json_unmarshal_args e (tc_Arguments toolCall) of
           Inl err \<Rightarrow>
             (Inl (ParseToolArguments err),
              OnToolCallEnd cm toolName None VNil toolCallID (Some err))
         | Inr args \<Rightarrow>
             (let cm1 = OnToolCallStart cm toolName (Some args) toolCallID;
                  foundToolID = findToolID (registry a) toolName
              in if foundToolID = [] then tool_not_found toolCall args cm1
                 else (case map_of (registry a) foundToolID of
                         None \<Rightarrow> tool_not_found toolCall args cm1
                       | Some entry \<Rightarrow> run_executor e (fst entry) toolCall args cm1)))"

fun executeToolCalls_from ::
  "agent \<Rightarrow> env \<Rightarrow> message list \<Rightarrow> tool_call list \<Rightarrow> manager
     \<Rightarrow> (error + message list) \<times> manager" where
  "executeToolCalls_from a e toolMessages [] cm = (Inr toolMessages, cm)"
| "executeToolCalls_from a e toolMessages (toolCall # rest) cm =
     (case executeToolCall a e toolCall cm of
        (Inl err, cm') \<Rightarrow> (Inl err, cm')
      | (Inr msg, cm') \<Rightarrow> executeToolCalls_from a e (toolMessages @ [msg]) rest cm')"

definition executeToolCalls ::
  "agent \<Rightarrow> env \<Rightarrow> tool_call list \<Rightarrow> manager \<Rightarrow> (error + message list) \<times> manager" where
  "executeToolCalls a e toolCalls cm = executeToolCalls_from a e [] toolCalls cm"

section \<open>The agent loop\<close>

definition buildMessages :: "InvokeConfig \<Rightarrow> error + message list" where
  "buildMessages config =
     (let messages = (if SystemPrompt config \<noteq> [] then [SystemMessage (SystemPrompt config)]
                      else [])
      in if Prompt config \<noteq> [] \<and> length (Messages config) > 0 then Inl BothPromptAndMessages
         else if Prompt config \<noteq> [] then Inr (messages @ [UserMessage (Prompt config)])
         else if length (Messages config) > 0 then Inr (messages @ Messages config)
         else Inl NeitherPromptNorMessages)"

definition request_params :: "agent \<Rightarrow> message list \<Rightarrow> chat_params" where
  "request_params a messages =
     \<lparr>p_Model = model a, p_Messages = messages,
      p_Tools = map (\<lambda>(tid, tool, sch).
                       (schema_Name sch, schema_Description sch, schema_JSONSchema sch))
                    (registry a),
      p_ResponseFormat = (\<not> string_output a)\<rparr>"

text \<open>
  One pass through the body of the loop of \<^verbatim>\<open>executeLoop\<close>, with the iteration counter
  already incremented: it either returns from \<^verbatim>\<open>executeLoop\<close> or goes on with a longer
  history.
\<close>

datatype pass = Return "error + go_value" manager | Continue "message list" manager

definition loop_body :: "agent \<Rightarrow> env \<Rightarrow> int \<Rightarrow> message list \<Rightarrow> manager \<Rightarrow> pass" where
  "loop_body a e iteration messages cm =
     (let cm1 = OnGenerationStart cm iteration messages (model a)
      in case complete e iteration (request_params a messages) of
           Inl err \<Rightarrow> Return (Inl (OpenAIAPIError err)) (OnError cm1 err ''generation'')
         | Inr completion \<Rightarrow>
             (case choices completion of
                [] \<Rightarrow> Return (Inl NoChoices) (OnError cm1 NoChoices ''generation'')
              | ch # _ \<Rightarrow>
                  (let toolCalls = tool_calls ch;
                       cm2 = OnGenerationEnd cm1 (finish_reason ch) (content ch) toolCalls
                               (usage completion);
                       messages' = messages @ [AssistantMessage (content ch) toolCalls]
                   in if length toolCalls = 0 then
                        (if string_output a then Return (Inr (VString (content ch))) cm2
                         else (case json_unmarshal_output e (content ch) of
                                 Inl err \<Rightarrow>
                                   Return (Inl (ParseOutputJSON err))
                                     (OnError cm2 err ''generation'')
                               | Inr result \<Rightarrow> Return (Inr result) cm2))
                      else
                        (case executeToolCalls a e toolCalls cm2 of
                           (Inl err, cm3) \<Rightarrow> Return (Inl err) (OnError cm3 err ''tool'')
                         | (Inr toolMessages, cm3) \<Rightarrow>
                             Continue (messages' @ toolMessages) cm3))))"

function executeLoop_from ::
  "agent \<Rightarrow> env \<Rightarrow> int \<Rightarrow> int \<Rightarrow> message list \<Rightarrow> manager
     \<Rightarrow> (error + go_value) \<times> int \<times> manager" where
  "executeLoop_from a e maxIter iteration messages cm =
     (if iteration < maxIter then
        (case loop_body a e (iteration + 1) messages cm of
           Return r cm' \<Rightarrow> (r, iteration + 1, cm')
         | Continue messages' cm' \<Rightarrow> executeLoop_from a e maxIter (iteration + 1) messages' cm')
      else
        (Inl (MaxIterationsReached maxIter), iteration,
         OnError cm (MaxIterationsReached maxIter) ''run''))"
  by pat_completeness auto
termination
  by (relation "measure (\<lambda>(a, e, maxIter, iteration, messages, cm). nat (maxIter - iteration))")
     auto

definition executeLoop ::
  "agent \<Rightarrow> env \<Rightarrow> message list \<Rightarrow> manager \<Rightarrow> int \<Rightarrow> (error + go_value) \<times> int \<times> manager" where
  "executeLoop a e messages cm maxIter = executeLoop_from a e maxIter 0 messages cm"

text \<open>
  \<^verbatim>\<open>Invoke\<close> returns the output or the error; the model also returns the callback manager
  of the invocation, whose \<open>emitted\<close> is everything that was broadcast.
\<close>

definition Invoke :: "agent \<Rightarrow> env \<Rightarrow> InvokeConfig \<Rightarrow> (error + go_value) \<times> manager" where
  "Invoke a e config =
     (let allCallbacks = mergeCallbacks a (Callbacks config);
          cbManager = NewManager allCallbacks (ParentRunID config) (uuid_seed e)
      in case buildMessages config of
           Inl err \<Rightarrow> (Inl err, OnError cbManager err ''run'')
         | Inr messages \<Rightarrow>
             (let hasOutputClass = (\<not> string_output a);
                  input = (if Prompt config = [] then ''messages'' else Prompt config);
                  cm1 = OnRunStart cbManager (model a) input hasOutputClass;
                  maxIter = (case MaxIterations config of
                               None \<Rightarrow> maxIterations a
                             | Some n \<Rightarrow> n)
              in case executeLoop a e messages cm1 maxIter of
                   (Inl err, iterations, cm2) \<Rightarrow> (Inl err, OnError cm2 err ''run'')
                 | (Inr result, iterations, cm2) \<Rightarrow>
                     (Inr result, OnRunEnd cm2 result iterations)))"

definition InvokeSimple :: "agent \<Rightarrow> env \<Rightarrow> string \<Rightarrow> (error + go_value) \<times> manager" where
  "InvokeSimple a e prompt =
     Invoke a e \<lparr>Prompt = prompt, Messages = [], Callbacks = [], ParentRunID = None,
                 SystemPrompt = [], MaxIterations = None\<rparr>"

text \<open>Reading a trace: the events broadcast, and how many of them are errors.\<close>

definition events :: "manager \<Rightarrow> event list" where
  "events cm = map fst (emitted cm)"

fun is_OnError :: "event \<Rightarrow> bool" where
  "is_OnError (EvError err stage) = True"
| "is_OnError _ = False"

definition count_OnError :: "manager \<Rightarrow> nat" where
  "count_OnError cm = length (filter is_OnError (events cm))"

fun is_GenerationStart :: "event \<Rightarrow> bool" where
  "is_GenerationStart (EvGenerationStart i msgs mdl) = True"
| "is_GenerationStart _ = False"

fun is_tool_event :: "event \<Rightarrow> bool" where
  "is_tool_event (EvToolCallStart n a i) = True"
| "is_tool_event (EvToolCallEnd n a r i err) = True"
| "is_tool_event _ = False"

section \<open>Example inputs\<close>

text \<open>
  A tool that returns its arguments, an agent that has it, an environment around a given
  completion endpoint whose \<^verbatim>\<open>json.Unmarshal\<close> accepts the empty object only, and an
  invocation with a prompt. The endpoints: one that fails, one that answers without
  choices, one that answers with a text, and one that asks for a call of the tool of a
  given name with given arguments.
\<close>

definition echo_tool :: tool_executor where
  "echo_tool =
     \<lparr>tool_info = \<lparr>info_Name = ''echo'', info_Description = ''returns its arguments''\<rparr>,
      type_Name = ''EchoTool'', tool_JSONSchema = ''{}'',
      unmarshal_copy = (\<lambda>s. None), Execute = (\<lambda>n s. (VString s, None))\<rparr>"

definition echo_agent :: agent where
  "echo_agent = CreateAgent \<lparr>DefaultModel = []\<rparr> [echo_tool]"

definition env_of :: "(int \<Rightarrow> chat_params \<Rightarrow> error + completion) \<Rightarrow> env" where
  "env_of endpoint =
     \<lparr>complete = endpoint,
      json_unmarshal_args =
        (\<lambda>s. if s = ''{}'' then Inr [] else Inl (External ''unexpected end of JSON input'')),
      json_unmarshal_output = (\<lambda>s. Inl (External ''invalid character'')),
      json_marshal = (\<lambda>v. Inr ''null''),
      uuid_seed = 0\<rparr>"

definition prompt_config :: "string \<Rightarrow> InvokeConfig" where
  "prompt_config p =
     \<lparr>Prompt = p, Messages = [], Callbacks = [], ParentRunID = None,
      SystemPrompt = [], MaxIterations = None\<rparr>"

definition failing_endpoint :: "int \<Rightarrow> chat_params \<Rightarrow> error + completion" where
  "failing_endpoint i p = Inl (External ''connection refused'')"

definition empty_endpoint :: "int \<Rightarrow> chat_params \<Rightarrow> error + completion" where
  "empty_endpoint i p = Inr \<lparr>choices = [], usage = (0, 0, 0)\<rparr>"

definition text_endpoint :: "int \<Rightarrow> chat_params \<Rightarrow> error + completion" where
  "text_endpoint i p =
     Inr \<lparr>choices = [\<lparr>finish_reason = ''stop'', content = ''done'', tool_calls = []\<rparr>],
          usage = (0, 0, 0)\<rparr>"

definition calling_endpoint ::
  "string \<Rightarrow> string \<Rightarrow> int \<Rightarrow> chat_params \<Rightarrow> error + completion" where
  "calling_endpoint name arguments i p =
     Inr \<lparr>choices = [\<lparr>finish_reason = ''tool_calls'', content = [],
                       tool_calls = [\<lparr>tc_ID = ''call_1'', tc_Name = name,
                                      tc_Arguments = arguments\<rparr>]\<rparr>],
          usage = (0, 0, 0)\<rparr>"

section \<open>Tool names\<close>

lemma toLowerChar_not_upper: "\<not> isUpper (toLowerChar c)"
  by (auto simp: toLowerChar_def isUpper_def)

lemma ToLower_no_upper: "filter isUpper (ToLower s) = []"
  by (induction s) (simp_all add: ToLower_def toLowerChar_not_upper)

lemma typeNameToToolName_no_upper: "filter isUpper (typeNameToToolName n) = []"
proof (cases "n = []")
  case True
  then show ?thesis
    by (simp add: typeNameToToolName_def isUpper_def)
next
  case False
  then show ?thesis
    by (simp add: typeNameToToolName_def ToLower_no_upper)
qed

lemmas tool_name_eval =
  typeNameToToolName_def underscore_before_def ToLower_def toLowerChar_def
  isUpper_def isLower_def char_of_def bit_0 upt_rec nth_Cons'

text \<open>
  C7. \<^verbatim>\<open>typeNameToToolName\<close> turns the type name \<^verbatim>\<open>HTTPClient2Request\<close> into exactly
  \<^verbatim>\<open>http_client2_request\<close>, and the two examples of its comment into \<^verbatim>\<open>my_tool\<close> and
  \<^verbatim>\<open>http_client\<close>; no upper-case letter is left in any name it returns.
\<close>

theorem typeNameToToolName_snake_case:
  "typeNameToToolName ''HTTPClient2Request'' = ''http_client2_request'' \<and>
   typeNameToToolName ''MyTool'' = ''my_tool'' \<and>
   typeNameToToolName ''HTTPClient'' = ''http_client'' \<and>
   filter isUpper (typeNameToToolName n) = []"
proof -
  have "typeNameToToolName ''HTTPClient2Request'' = ''http_client2_request''"
    by (simp add: tool_name_eval)
  moreover have "typeNameToToolName ''MyTool'' = ''my_tool''"
    by (simp add: tool_name_eval)
  moreover have "typeNameToToolName ''HTTPClient'' = ''http_client''"
    by (simp add: tool_name_eval)
  ultimately show ?thesis
    by (simp add: typeNameToToolName_no_upper)
qed

section \<open>Registration\<close>

lemma find_app:
  "find P (xs @ ys) = (case find P xs of None \<Rightarrow> find P ys | Some x \<Rightarrow> Some x)"
  by (induction xs) auto

lemma map_of_register_tools:
  "map_of (register_tools reg ts) i =
     (case find (\<lambda>t. schema_ID (BuildToolSchema t) = i) (rev ts) of
        None \<Rightarrow> map_of reg i
      | Some t \<Rightarrow> Some (t, BuildToolSchema t))"
proof (induction ts arbitrary: reg)
  case Nil
  then show ?case by simp
next
  case (Cons t ts)
  show ?case
    by (simp add: Cons.IH Let_def update_conv' find_app split: option.splits)
qed

text \<open>
  C8. Construction returns an agent for every list of tools (there is no error to
  raise), and its registry maps a tool id to the last tool of the list whose schema has
  that id, whatever was registered under the id before it; an id that no tool has is not
  in the registry.
\<close>

theorem registry_last_wins:
  "map_of (registry (CreateAgentWithOutput is_string c ts)) i =
     map_option (\<lambda>t. (t, BuildToolSchema t))
       (find (\<lambda>t. schema_ID (BuildToolSchema t) = i) (rev ts))"
  by (simp add: CreateAgentWithOutput_def map_of_register_tools split: option.splits)

text \<open>
  Two tools named \<^verbatim>\<open>my tool\<close> and \<^verbatim>\<open>my-tool\<close> both get the id \<^verbatim>\<open>my_tool\<close>; the
  registry holds the second.
\<close>

theorem registry_last_wins_witness:
  "map_of (registry (CreateAgentWithOutput True \<lparr>DefaultModel = []\<rparr>
     [\<lparr>tool_info = \<lparr>info_Name = ''my tool'', info_Description = ''first''\<rparr>,
       type_Name = ''A'', tool_JSONSchema = [],
       unmarshal_copy = (\<lambda>s. None), Execute = (\<lambda>n s. (VNil, None))\<rparr>,
      \<lparr>tool_info = \<lparr>info_Name = ''my-tool'', info_Description = ''second''\<rparr>,
       type_Name = ''B'', tool_JSONSchema = [],
       unmarshal_copy = (\<lambda>s. None), Execute = (\<lambda>n s. (VString ''x'', None))\<rparr>]))
     ''my_tool''
   = Some (\<lparr>tool_info = \<lparr>info_Name = ''my-tool'', info_Description = ''second''\<rparr>,
            type_Name = ''B'', tool_JSONSchema = [],
            unmarshal_copy = (\<lambda>s. None), Execute = (\<lambda>n s. (VString ''x'', None))\<rparr>,
           \<lparr>schema_Name = ''my-tool'', schema_ID = ''my_tool'',
            schema_Description = ''second'', schema_JSONSchema = []\<rparr>)"
  using registry_last_wins [of True "\<lparr>DefaultModel = []\<rparr>"
     "[\<lparr>tool_info = \<lparr>info_Name = ''my tool'', info_Description = ''first''\<rparr>,
       type_Name = ''A'', tool_JSONSchema = [],
       unmarshal_copy = (\<lambda>s. None), Execute = (\<lambda>n s. (VNil, None))\<rparr>,
      \<lparr>tool_info = \<lparr>info_Name = ''my-tool'', info_Description = ''second''\<rparr>,
       type_Name = ''B'', tool_JSONSchema = [],
       unmarshal_copy = (\<lambda>s. None), Execute = (\<lambda>n s. (VString ''x'', None))\<rparr>]"
     "''my_tool''"]
  by (simp add: BuildToolSchema_def GetAgentToolInfo_def Replace_space_hyphen_def
      ToLower_def toLowerChar_def isUpper_def)

text \<open>
  Go iterates over a map in no fixed order. In a registry that \<^verbatim>\<open>CreateAgentWithOutput\<close>
  built, the key of an entry is determined by the name in its schema, so the search for a
  tool name finds the same id in any order; that id is never the empty string, which the
  search returns for a name that is not there, and the executor is found under it.
\<close>

lemma BuildToolSchema_ID_nonempty: "schema_ID (BuildToolSchema tool) \<noteq> []"
  by (auto simp: BuildToolSchema_def GetAgentToolInfo_def Let_def ToLower_def
        Replace_space_hyphen_def typeNameToToolName_def)

lemma findToolID_is_key:
  "findToolID reg toolName \<noteq> [] \<Longrightarrow> map_of reg (findToolID reg toolName) \<noteq> None"
  by (induction reg toolName rule: findToolID.induct) auto

lemma set_update_subset: "set (AList.update k v al) \<subseteq> insert (k, v) (set al)"
  by (induction al) auto

lemma register_tools_keys:
  assumes "\<forall>(k, t, sch) \<in> set reg. k = ToLower (Replace_space_hyphen (schema_Name sch))"
  shows "\<forall>(k, t, sch) \<in> set (register_tools reg ts).
           k = ToLower (Replace_space_hyphen (schema_Name sch))"
  using assms
proof (induction ts arbitrary: reg)
  case Nil
  then show ?case by simp
next
  case (Cons tool ts)
  have "\<forall>(k, t, sch) \<in> set (AList.update (schema_ID (BuildToolSchema tool))
                               (tool, BuildToolSchema tool) reg).
          k = ToLower (Replace_space_hyphen (schema_Name sch))"
    using Cons.prems set_update_subset [of "schema_ID (BuildToolSchema tool)"
                                          "(tool, BuildToolSchema tool)" reg]
    by (auto simp: BuildToolSchema_def Let_def)
  from Cons.IH [OF this] show ?case
    by (simp add: Let_def)
qed

lemma findToolID_by_name:
  assumes "\<forall>(k, t, sch) \<in> set reg. k = ToLower (Replace_space_hyphen (schema_Name sch))"
  shows "findToolID reg toolName =
           (if toolName \<in> (\<lambda>(k, t, sch). schema_Name sch) ` set reg
            then ToLower (Replace_space_hyphen toolName) else [])"
  using assms by (induction reg toolName rule: findToolID.induct) auto

lemma findToolID_order_free:
  "findToolID (registry (CreateAgentWithOutput is_string c ts)) toolName =
     (if toolName \<in> (\<lambda>(k, t, sch). schema_Name sch) `
                        set (registry (CreateAgentWithOutput is_string c ts))
      then ToLower (Replace_space_hyphen toolName) else [])"
  using findToolID_by_name [OF register_tools_keys [of "[]" ts]]
  by (simp add: CreateAgentWithOutput_def)

section \<open>Callbacks of an invocation\<close>

lemma seen_names_eq: "seen_names S cbs = S \<union> cb_Name ` set cbs"
  by (induction cbs arbitrary: S) auto

lemma append_unseen_eq: "append_unseen S acc cbs = acc @ filter (\<lambda>cb. cb_Name cb \<notin> S) cbs"
  by (induction cbs arbitrary: acc) auto

text \<open>
  C9. The merged callback list is the invocation's callbacks in their order, followed by
  those of the agent's callbacks, in their order, whose name is not the name of any of the
  invocation's callbacks.
\<close>

theorem mergeCallbacks_ordered:
  "mergeCallbacks a invokeCallbacks =
     invokeCallbacks @
     filter (\<lambda>cb. cb_Name cb \<notin> cb_Name ` set invokeCallbacks) (callbacks a)"
  by (simp add: mergeCallbacks_def seen_names_eq append_unseen_eq)

text \<open>
  An agent with the callbacks \<^verbatim>\<open>trace\<close>, \<^verbatim>\<open>log\<close> and \<^verbatim>\<open>metrics\<close>, invoked with another
  \<^verbatim>\<open>log\<close> and an \<^verbatim>\<open>audit\<close>: the invocation's two come first, and the agent's \<^verbatim>\<open>log\<close>
  is dropped.
\<close>

theorem mergeCallbacks_ordered_witness:
  "mergeCallbacks
     (WithCallbacks echo_agent
        [\<lparr>cb_Name = ''trace'', cb_handle = 1\<rparr>, \<lparr>cb_Name = ''log'', cb_handle = 2\<rparr>,
         \<lparr>cb_Name = ''metrics'', cb_handle = 3\<rparr>])
     [\<lparr>cb_Name = ''log'', cb_handle = 4\<rparr>, \<lparr>cb_Name = ''audit'', cb_handle = 5\<rparr>]
   = [\<lparr>cb_Name = ''log'', cb_handle = 4\<rparr>, \<lparr>cb_Name = ''audit'', cb_handle = 5\<rparr>,
      \<lparr>cb_Name = ''trace'', cb_handle = 1\<rparr>, \<lparr>cb_Name = ''metrics'', cb_handle = 3\<rparr>]"
  using mergeCallbacks_ordered [of
     "WithCallbacks echo_agent
        [\<lparr>cb_Name = ''trace'', cb_handle = 1\<rparr>, \<lparr>cb_Name = ''log'', cb_handle = 2\<rparr>,
         \<lparr>cb_Name = ''metrics'', cb_handle = 3\<rparr>]"
     "[\<lparr>cb_Name = ''log'', cb_handle = 4\<rparr>, \<lparr>cb_Name = ''audit'', cb_handle = 5\<rparr>]"]
  by (simp add: WithCallbacks_def)

section \<open>Traces of the callback manager\<close>

declare executeLoop_from.simps [simp del]

lemmas handler_defs =
  OnRunStart_def OnRunEnd_def OnGenerationStart_def OnGenerationEnd_def
  OnToolCallStart_def OnToolCallEnd_def OnError_def notify_def addRunContext_def
  createNestedRun_def getNestedRunID_def

lemma events_handle: "events (handle cm ev) = events cm @ [ev]"
  by (cases ev) (simp_all add: handler_defs events_def Let_def split: option.splits)

lemma events_handle_all: "events (handle_all cm evs) = events cm @ evs"
  by (induction evs arbitrary: cm) (simp_all add: events_handle)

lemma handle_all_append: "handle_all cm (xs @ ys) = handle_all (handle_all cm xs) ys"
  by (induction xs arbitrary: cm) simp_all

lemma nestedRunID_handle:
  "nestedRunID (handle cm ev) =
     (case ev of EvToolCallStart n a i \<Rightarrow> (nestedRunID cm)(i \<mapsto> uuid_next cm)
               | _ \<Rightarrow> nestedRunID cm)"
  by (cases ev) (simp_all add: handler_defs Let_def split: option.splits)

lemma dom_nestedRunID_handle:
  "dom (nestedRunID (handle cm ev)) = dom (nestedRunID cm) \<union> started_calls [ev]"
  using nestedRunID_handle [of cm ev] by (cases ev) simp_all

lemma started_calls_Cons: "started_calls (ev # evs) = started_calls [ev] \<union> started_calls evs"
  by (cases ev) simp_all

lemma dom_nestedRunID_handle_all:
  "dom (nestedRunID (handle_all cm evs)) = dom (nestedRunID cm) \<union> started_calls evs"
proof (induction evs arbitrary: cm)
  case Nil
  then show ?case by simp
next
  case (Cons ev evs)
  have "dom (nestedRunID (handle_all cm (ev # evs)))
        = (dom (nestedRunID cm) \<union> started_calls [ev]) \<union> started_calls evs"
    by (simp add: Cons.IH dom_nestedRunID_handle)
  also have "\<dots> = dom (nestedRunID cm) \<union> started_calls (ev # evs)"
    using started_calls_Cons [of ev evs] by auto
  finally show ?case .
qed

lemma open_calls_subset: "open_calls S evs \<subseteq> S \<union> started_calls evs"
proof (induction S evs rule: open_calls.induct)
qed auto

section \<open>Traces of tool dispatch and of the loop\<close>

lemma tool_events_quiet:
  "\<forall>ev\<in>set evs. is_tool_event ev \<Longrightarrow>
     filter is_OnError evs = [] \<and> filter is_GenerationStart evs = []"
proof (induction evs)
  case Nil
  then show ?case by simp
next
  case (Cons ev evs)
  then show ?case by (cases ev) simp_all
qed

lemma executeToolCall_parse_failure:
  "json_unmarshal_args e (tc_Arguments tc) = Inl err \<Longrightarrow>
     executeToolCall a e tc cm =
       (Inl (ParseToolArguments err),
        OnToolCallEnd cm (tc_Name tc) None VNil (tc_ID tc) (Some err))"
  by (simp add: executeToolCall_def)

lemma executeToolCall_parsed:
  "json_unmarshal_args e (tc_Arguments tc) = Inr args \<Longrightarrow>
     \<exists>r err. snd (executeToolCall a e tc cm) =
       OnToolCallEnd (OnToolCallStart cm (tc_Name tc) (Some args) (tc_ID tc))
         (tc_Name tc) (Some args) r (tc_ID tc) err"
  by (auto simp: executeToolCall_def run_executor_def tool_not_found_def Let_def
           split: option.splits sum.splits prod.splits)

lemma executeToolCall_trace:
  "\<exists>evs. snd (executeToolCall a e tc cm) = handle_all cm evs \<and> (\<forall>ev\<in>set evs. is_tool_event ev)"
proof (cases "json_unmarshal_args e (tc_Arguments tc)")
  case (Inl err)
  have "snd (executeToolCall a e tc cm)
          = handle_all cm [EvToolCallEnd (tc_Name tc) None VNil (tc_ID tc) (Some err)]"
    by (simp add: executeToolCall_parse_failure [OF Inl])
  then show ?thesis
    by (intro exI [of _ "[EvToolCallEnd (tc_Name tc) None VNil (tc_ID tc) (Some err)]"]) simp
next
  case (Inr args)
  from executeToolCall_parsed [OF Inr, of a cm] obtain r err where
    "snd (executeToolCall a e tc cm) =
       OnToolCallEnd (OnToolCallStart cm (tc_Name tc) (Some args) (tc_ID tc))
         (tc_Name tc) (Some args) r (tc_ID tc) err"
    by blast
  then have "snd (executeToolCall a e tc cm)
          = handle_all cm [EvToolCallStart (tc_Name tc) (Some args) (tc_ID tc),
                           EvToolCallEnd (tc_Name tc) (Some args) r (tc_ID tc) err]"
    by simp
  then show ?thesis
    by (intro exI [of _ "[EvToolCallStart (tc_Name tc) (Some args) (tc_ID tc),
                           EvToolCallEnd (tc_Name tc) (Some args) r (tc_ID tc) err]"]) simp
qed

lemma executeToolCalls_from_trace:
  "\<exists>evs. snd (executeToolCalls_from a e acc tcs cm) = handle_all cm evs \<and>
         (\<forall>ev\<in>set evs. is_tool_event ev)"
proof (induction tcs arbitrary: acc cm)
  case Nil
  show ?case by (intro exI [of _ "[]"]) simp
next
  case (Cons tc tcs)
  obtain r cm1 where r: "executeToolCall a e tc cm = (r, cm1)"
    by (cases "executeToolCall a e tc cm")
  from executeToolCall_trace [of a e tc cm] r obtain evs1 where
    evs1: "cm1 = handle_all cm evs1" "\<forall>ev\<in>set evs1. is_tool_event ev"
    by auto
  show ?case
  proof (cases r)
    case (Inl err)
    with r evs1 show ?thesis by (intro exI [of _ evs1]) simp
  next
    case (Inr msg)
    from Cons.IH [of "acc @ [msg]" cm1] obtain evs2 where
      evs2: "snd (executeToolCalls_from a e (acc @ [msg]) tcs cm1) = handle_all cm1 evs2"
            "\<forall>ev\<in>set evs2. is_tool_event ev"
      by blast
    with r Inr evs1 show ?thesis
      by (intro exI [of _ "evs1 @ evs2"]) (auto simp: handle_all_append)
  qed
qed

lemma executeToolCalls_trace:
  "executeToolCalls a e tcs cm = (r, cm') \<Longrightarrow>
     \<exists>evs. cm' = handle_all cm evs \<and> (\<forall>ev\<in>set evs. is_tool_event ev)"
  using executeToolCalls_from_trace [of a e "[]" tcs cm] by (simp add: executeToolCalls_def)


lemma to_trace:
  "OnRunStart cm mdl input h = handle_all cm [EvRunStart mdl input h]"
  "OnRunEnd cm output n = handle_all cm [EvRunEnd output n]"
  "OnGenerationStart cm i msgs mdl = handle_all cm [EvGenerationStart i msgs mdl]"
  "OnGenerationEnd cm f c tcs u = handle_all cm [EvGenerationEnd f c tcs u]"
  "OnToolCallStart cm tn ar ti = handle_all cm [EvToolCallStart tn ar ti]"
  "OnToolCallEnd cm tn ar r ti err = handle_all cm [EvToolCallEnd tn ar r ti err]"
  "OnError cm er stage = handle_all cm [EvError er stage]"
  "handle_all (handle_all cm xs) ys = handle_all cm (xs @ ys)"
  by (simp_all add: handle_all_append)

lemma loop_body_api_error:
  "complete e it (request_params a msgs) = Inl err \<Longrightarrow>
     loop_body a e it msgs cm =
       Return (Inl (OpenAIAPIError err))
         (handle_all cm [EvGenerationStart it msgs (model a), EvError err ''generation''])"
  by (simp add: loop_body_def)

lemma loop_body_no_choices:
  "complete e it (request_params a msgs) = Inr c \<Longrightarrow> choices c = [] \<Longrightarrow>
     loop_body a e it msgs cm =
       Return (Inl NoChoices)
         (handle_all cm [EvGenerationStart it msgs (model a), EvError NoChoices ''generation''])"
  by (simp add: loop_body_def)

lemma loop_body_final:
  "complete e it (request_params a msgs) = Inr c \<Longrightarrow> choices c = ch # rest \<Longrightarrow>
   tool_calls ch = [] \<Longrightarrow>
     loop_body a e it msgs cm =
       (if string_output a then
          Return (Inr (VString (content ch)))
            (handle_all cm [EvGenerationStart it msgs (model a),
               EvGenerationEnd (finish_reason ch) (content ch) [] (usage c)])
        else
          (case json_unmarshal_output e (content ch) of
             Inl err \<Rightarrow>
               Return (Inl (ParseOutputJSON err))
                 (handle_all cm [EvGenerationStart it msgs (model a),
                    EvGenerationEnd (finish_reason ch) (content ch) [] (usage c),
                    EvError err ''generation''])
           | Inr result \<Rightarrow>
               Return (Inr result)
                 (handle_all cm [EvGenerationStart it msgs (model a),
                    EvGenerationEnd (finish_reason ch) (content ch) [] (usage c)])))"
  by (simp add: loop_body_def Let_def split: sum.splits)

lemma loop_body_tools:
  "complete e it (request_params a msgs) = Inr c \<Longrightarrow> choices c = ch # rest \<Longrightarrow>
   tool_calls ch \<noteq> [] \<Longrightarrow>
     loop_body a e it msgs cm =
       (case executeToolCalls a e (tool_calls ch)
               (handle_all cm [EvGenerationStart it msgs (model a),
                  EvGenerationEnd (finish_reason ch) (content ch) (tool_calls ch) (usage c)]) of
          (Inl err, cm3) \<Rightarrow> Return (Inl err) (handle_all cm3 [EvError err ''tool''])
        | (Inr toolMessages, cm3) \<Rightarrow>
            Continue (msgs @ [AssistantMessage (content ch) (tool_calls ch)] @ toolMessages) cm3)"
  by (simp add: loop_body_def Let_def split: sum.splits prod.splits)

lemma loop_body_trace:
  "\<exists>evs. (case loop_body a e it msgs cm of Return r cm' \<Rightarrow> cm' | Continue m cm' \<Rightarrow> cm')
            = handle_all cm evs \<and>
         filter is_GenerationStart evs = [EvGenerationStart it msgs (model a)] \<and>
         length (filter is_OnError evs) =
           (case loop_body a e it msgs cm of Return (Inl err) cm' \<Rightarrow> 1 | _ \<Rightarrow> 0)"
proof (cases "complete e it (request_params a msgs)")
  case (Inl err)
  show ?thesis
    unfolding loop_body_api_error [OF Inl]
    by (intro exI [of _ "[EvGenerationStart it msgs (model a), EvError err ''generation'']"])
       simp
next
  case (Inr c)
  show ?thesis
  proof (cases "choices c")
    case Nil
    show ?thesis
      unfolding loop_body_no_choices [OF Inr Nil]
      by (intro exI [of _ "[EvGenerationStart it msgs (model a),
                            EvError NoChoices ''generation'']"]) simp
  next
    case (Cons ch rest)
    let ?g = "EvGenerationStart it msgs (model a)"
    let ?ge = "EvGenerationEnd (finish_reason ch) (content ch) (tool_calls ch) (usage c)"
    show ?thesis
    proof (cases "tool_calls ch = []")
      case True
      show ?thesis
      proof (cases "string_output a")
        case s: True
        show ?thesis
          unfolding loop_body_final [OF Inr Cons True]
          using s True by (intro exI [of _ "[?g, ?ge]"]) simp
      next
        case s: False
        show ?thesis
        proof (cases "json_unmarshal_output e (content ch)")
          case (Inl err)
          show ?thesis
            unfolding loop_body_final [OF Inr Cons True]
            using s True Inl by (intro exI [of _ "[?g, ?ge, EvError err ''generation'']"]) simp
        next
          case r: (Inr result)
          show ?thesis
            unfolding loop_body_final [OF Inr Cons True]
            using s True r by (intro exI [of _ "[?g, ?ge]"]) simp
        qed
      qed
    next
      case False
      obtain tr cm3 where t: "executeToolCalls a e (tool_calls ch) (handle_all cm [?g, ?ge])
                               = (tr, cm3)"
        by (cases "executeToolCalls a e (tool_calls ch) (handle_all cm [?g, ?ge])")
      from executeToolCalls_trace [OF t] obtain evs where
        evs: "cm3 = handle_all cm ([?g, ?ge] @ evs)" "\<forall>ev\<in>set evs. is_tool_event ev"
        by (auto simp: handle_all_append)
      note q = tool_events_quiet [OF evs(2)]
      show ?thesis
      proof (cases tr)
        case (Inl err)
        show ?thesis
          unfolding loop_body_tools [OF Inr Cons False] t Inl
          using evs(1) q
          by (intro exI [of _ "[?g, ?ge] @ evs @ [EvError err ''tool'']"])
             (simp add: handle_all_append)
      next
        case r: (Inr tms)
        show ?thesis
          unfolding loop_body_tools [OF Inr Cons False] t r
          using evs(1) q by (intro exI [of _ "[?g, ?ge] @ evs"]) simp
      qed
    qed
  qed
qed


lemma executeLoop_from_stop:
  "\<not> iteration < maxIter \<Longrightarrow>
     executeLoop_from a e maxIter iteration messages cm =
       (Inl (MaxIterationsReached maxIter), iteration,
        handle_all cm [EvError (MaxIterationsReached maxIter) ''run''])"
  by (subst executeLoop_from.simps) simp

lemma executeLoop_from_Return:
  "iteration < maxIter \<Longrightarrow> loop_body a e (iteration + 1) messages cm = Return r cm' \<Longrightarrow>
     executeLoop_from a e maxIter iteration messages cm = (r, iteration + 1, cm')"
  by (subst executeLoop_from.simps) simp

lemma executeLoop_from_Continue:
  "iteration < maxIter \<Longrightarrow> loop_body a e (iteration + 1) messages cm = Continue messages' cm' \<Longrightarrow>
     executeLoop_from a e maxIter iteration messages cm =
       executeLoop_from a e maxIter (iteration + 1) messages' cm'"
  by (subst executeLoop_from.simps) simp

lemma executeLoop_from_trace:
  "\<exists>evs. snd (snd (executeLoop_from a e maxIter iteration messages cm)) = handle_all cm evs \<and>
         length (filter is_OnError evs) =
           (case fst (executeLoop_from a e maxIter iteration messages cm) of
              Inl err \<Rightarrow> 1 | Inr r \<Rightarrow> 0)"
proof (induction a e maxIter iteration messages cm rule: executeLoop_from.induct)
  case (1 a e maxIter iteration messages cm)
  show ?case
  proof (cases "iteration < maxIter")
    case False
    show ?thesis
      unfolding executeLoop_from_stop [OF False]
      by (intro exI [of _ "[EvError (MaxIterationsReached maxIter) ''run'']"]) simp
  next
    case True
    from loop_body_trace [of a e "iteration + 1" messages cm] obtain evs1 where
      evs1: "(case loop_body a e (iteration + 1) messages cm of
                Return r cm' \<Rightarrow> cm' | Continue m cm' \<Rightarrow> cm') = handle_all cm evs1"
            "length (filter is_OnError evs1) =
               (case loop_body a e (iteration + 1) messages cm of
                  Return (Inl err) cm' \<Rightarrow> 1 | _ \<Rightarrow> 0)"
      by blast
    show ?thesis
    proof (cases "loop_body a e (iteration + 1) messages cm")
      case (Return r cm')
      show ?thesis
        unfolding executeLoop_from_Return [OF True Return]
        using evs1 Return by (intro exI [of _ evs1]) (simp split: sum.splits)
    next
      case (Continue messages' cm')
      from "1.IH" [OF True Continue] obtain evs2 where
        evs2: "snd (snd (executeLoop_from a e maxIter (iteration + 1) messages' cm'))
                 = handle_all cm' evs2"
              "length (filter is_OnError evs2) =
                 (case fst (executeLoop_from a e maxIter (iteration + 1) messages' cm') of
                    Inl err \<Rightarrow> 1 | Inr r \<Rightarrow> 0)"
        by blast
      show ?thesis
        unfolding executeLoop_from_Continue [OF True Continue]
        using evs1 evs2 Continue
        by (intro exI [of _ "evs1 @ evs2"]) (simp add: handle_all_append)
    qed
  qed
qed

lemma events_NewManager: "events (NewManager cbs parent seed) = []"
  by (simp add: NewManager_def events_def)

lemma Invoke_input_error:
  "buildMessages config = Inl err \<Longrightarrow>
     Invoke a e config =
       (Inl err,
        handle_all (NewManager (mergeCallbacks a (Callbacks config)) (ParentRunID config)
                      (uuid_seed e))
          [EvError err ''run''])"
  by (simp add: Invoke_def Let_def)

lemma Invoke_run:
  "buildMessages config = Inr messages \<Longrightarrow>
     Invoke a e config =
       (case executeLoop_from a e
               (case MaxIterations config of None \<Rightarrow> maxIterations a | Some n \<Rightarrow> n) 0 messages
               (handle_all (NewManager (mergeCallbacks a (Callbacks config)) (ParentRunID config)
                              (uuid_seed e))
                  [EvRunStart (model a)
                     (if Prompt config = [] then ''messages'' else Prompt config)
                     (\<not> string_output a)]) of
          (Inl err, iterations, cm2) \<Rightarrow> (Inl err, handle_all cm2 [EvError err ''run''])
        | (Inr result, iterations, cm2) \<Rightarrow>
            (Inr result, handle_all cm2 [EvRunEnd result iterations]))"
  by (simp add: Invoke_def Let_def executeLoop_def split: sum.splits prod.splits)

lemma executeLoop_from_step:
  "iteration < maxIter \<Longrightarrow>
     executeLoop_from a e maxIter iteration messages cm =
       (case loop_body a e (iteration + 1) messages cm of
          Return r cm' \<Rightarrow> (r, iteration + 1, cm')
        | Continue messages' cm' \<Rightarrow> executeLoop_from a e maxIter (iteration + 1) messages' cm')"
  by (subst executeLoop_from.simps) simp

lemma echo_agent_eval:
  "echo_agent =
     \<lparr>registry = [(''echo'', echo_tool,
                   \<lparr>schema_Name = ''echo'', schema_ID = ''echo'',
                    schema_Description = ''returns its arguments'', schema_JSONSchema = ''{}''\<rparr>)],
      model = ''gpt-4o'', callbacks = [], maxIterations = 10, string_output = True\<rparr>"
  by (simp add: echo_agent_def CreateAgent_def CreateAgentWithOutput_def BuildToolSchema_def
      GetAgentToolInfo_def echo_tool_def Replace_space_hyphen_def ToLower_def toLowerChar_def
      isUpper_def Let_def)

lemmas run_eval =
  Invoke_def executeLoop_def executeLoop_from_step executeLoop_from_stop loop_body_def
  executeToolCalls_def executeToolCall_def run_executor_def tool_not_found_def
  resultToString_def buildMessages_def request_params_def mergeCallbacks_def
  NewManager_def handler_defs events_def count_OnError_def Let_def
  echo_agent_eval env_of_def prompt_config_def echo_tool_def
  failing_endpoint_def empty_endpoint_def text_endpoint_def calling_endpoint_def

section \<open>Error events of an invocation\<close>

text \<open>
  C1, as the code has it. An invocation that stops on an input error broadcasts
  \<^verbatim>\<open>OnError\<close> exactly once. One that gets past the input check broadcasts it twice when
  it returns an error (the loop reports the failing step with its stage tag, then
  \<^verbatim>\<open>Invoke\<close> reports the returned error with stage \<^verbatim>\<open>run\<close>) and never when it returns
  an output.
\<close>

theorem OnError_count:
  "count_OnError (snd (Invoke a e config)) =
     (case buildMessages config of
        Inl err \<Rightarrow> 1
      | Inr messages \<Rightarrow> (case fst (Invoke a e config) of Inl err \<Rightarrow> 2 | Inr result \<Rightarrow> 0))"
proof (cases "buildMessages config")
  case (Inl err)
  show ?thesis
    by (simp add: Inl Invoke_input_error [OF Inl] count_OnError_def events_handle_all
          events_NewManager del: handle_all.simps)
next
  case (Inr messages)
  let ?cm0 = "NewManager (mergeCallbacks a (Callbacks config)) (ParentRunID config) (uuid_seed e)"
  let ?rs = "EvRunStart (model a) (if Prompt config = [] then ''messages'' else Prompt config)
               (\<not> string_output a)"
  let ?cap = "case MaxIterations config of None \<Rightarrow> maxIterations a | Some n \<Rightarrow> n"
  obtain r n cm2 where l: "executeLoop_from a e ?cap 0 messages (handle_all ?cm0 [?rs]) = (r, n, cm2)"
    by (cases "executeLoop_from a e ?cap 0 messages (handle_all ?cm0 [?rs])") auto
  from executeLoop_from_trace [of a e ?cap 0 messages "handle_all ?cm0 [?rs]"] l obtain evs where
    evs: "cm2 = handle_all ?cm0 (?rs # evs)"
         "length (filter is_OnError evs) = (case r of Inl err \<Rightarrow> 1 | Inr r \<Rightarrow> 0)"
    by (auto simp: to_trace(8) simp del: handle_all.simps)
  show ?thesis
    unfolding Invoke_run [OF Inr] l
    using evs
    by (cases r)
       (simp_all add: Inr count_OnError_def events_handle_all events_NewManager
          del: handle_all.simps)
qed

text \<open>
  The claim of a single \<^verbatim>\<open>OnError\<close> fails when the endpoint fails: the trace holds one
  with stage \<^verbatim>\<open>generation\<close> and one with stage \<^verbatim>\<open>run\<close>.
\<close>

theorem OnError_twice_counterexample:
  "fst (Invoke echo_agent (env_of failing_endpoint) (prompt_config ''hi''))
     = Inl (OpenAIAPIError (External ''connection refused'')) \<and>
   events (snd (Invoke echo_agent (env_of failing_endpoint) (prompt_config ''hi'')))
     = [EvRunStart ''gpt-4o'' ''hi'' False,
        EvGenerationStart 1 [UserMessage ''hi''] ''gpt-4o'',
        EvError (External ''connection refused'') ''generation'',
        EvError (OpenAIAPIError (External ''connection refused'')) ''run''] \<and>
   count_OnError (snd (Invoke echo_agent (env_of failing_endpoint) (prompt_config ''hi''))) = 2"
  by (simp add: run_eval)

text \<open>
  C2, as the code has it. When both a prompt and messages are given, \<^verbatim>\<open>Invoke\<close> returns
  the input error and broadcasts exactly one event before it returns, \<^verbatim>\<open>OnError\<close> with
  stage \<^verbatim>\<open>run\<close>, under the run id of the invocation; every callback of the merged list
  receives it once. No run start, generation or tool event is broadcast.
\<close>

theorem both_inputs_one_OnError:
  assumes "Prompt config \<noteq> []" and "Messages config \<noteq> []"
  shows "fst (Invoke a e config) = Inl BothPromptAndMessages \<and>
         emitted (snd (Invoke a e config)) =
           [(EvError BothPromptAndMessages ''run'', uuid_seed e, ParentRunID config)] \<and>
         deliveries (snd (Invoke a e config)) =
           map (\<lambda>cb. (cb, (EvError BothPromptAndMessages ''run'', uuid_seed e, ParentRunID config)))
             (mergeCallbacks a (Callbacks config))"
proof -
  from assms have b: "buildMessages config = Inl BothPromptAndMessages"
    by (simp add: buildMessages_def Let_def)
  show ?thesis
    by (simp add: Invoke_input_error [OF b] deliveries_def handler_defs NewManager_def)
qed

theorem both_inputs_one_OnError_witness:
  "fst (Invoke echo_agent (env_of text_endpoint)
          ((prompt_config ''hi'')\<lparr>Messages := [UserMessage ''again'']\<rparr>))
     = Inl BothPromptAndMessages \<and>
   emitted (snd (Invoke echo_agent (env_of text_endpoint)
          ((prompt_config ''hi'')\<lparr>Messages := [UserMessage ''again'']\<rparr>)))
     = [(EvError BothPromptAndMessages ''run'', 0, None)]"
  using both_inputs_one_OnError [of "(prompt_config ''hi'')\<lparr>Messages := [UserMessage ''again'']\<rparr>"
          echo_agent "env_of text_endpoint"]
  by (simp add: prompt_config_def env_of_def)

text \<open>
  The claim that no callback event is broadcast fails: a callback of the invocation
  receives the \<^verbatim>\<open>OnError\<close>.
\<close>

theorem both_inputs_silent_counterexample:
  "fst (Invoke echo_agent (env_of text_endpoint)
          ((prompt_config ''hi'')\<lparr>Messages := [UserMessage ''again''],
             Callbacks := [\<lparr>cb_Name = ''logger'', cb_handle = 0\<rparr>]\<rparr>))
     = Inl BothPromptAndMessages \<and>
   deliveries (snd (Invoke echo_agent (env_of text_endpoint)
          ((prompt_config ''hi'')\<lparr>Messages := [UserMessage ''again''],
             Callbacks := [\<lparr>cb_Name = ''logger'', cb_handle = 0\<rparr>]\<rparr>)))
     = [(\<lparr>cb_Name = ''logger'', cb_handle = 0\<rparr>,
         (EvError BothPromptAndMessages ''run'', 0, None))]"
  by (simp add: run_eval deliveries_def)

section \<open>The nested-run map\<close>

lemma Invoke_reachable:
  "\<exists>evs. snd (Invoke a e config) =
           handle_all (NewManager (mergeCallbacks a (Callbacks config)) (ParentRunID config)
                         (uuid_seed e)) evs"
proof (cases "buildMessages config")
  case (Inl err)
  show ?thesis
    unfolding Invoke_input_error [OF Inl] by (intro exI [of _ "[EvError err ''run'']"]) simp
next
  case (Inr messages)
  let ?cm0 = "NewManager (mergeCallbacks a (Callbacks config)) (ParentRunID config) (uuid_seed e)"
  let ?rs = "EvRunStart (model a) (if Prompt config = [] then ''messages'' else Prompt config)
               (\<not> string_output a)"
  let ?cap = "case MaxIterations config of None \<Rightarrow> maxIterations a | Some n \<Rightarrow> n"
  obtain r n cm2 where l: "executeLoop_from a e ?cap 0 messages (handle_all ?cm0 [?rs]) = (r, n, cm2)"
    by (cases "executeLoop_from a e ?cap 0 messages (handle_all ?cm0 [?rs])") auto
  from executeLoop_from_trace [of a e ?cap 0 messages "handle_all ?cm0 [?rs]"] l obtain evs where
    evs: "cm2 = handle_all ?cm0 (?rs # evs)"
    by (auto simp: to_trace(8) simp del: handle_all.simps)
  show ?thesis
  proof (cases r)
    case (Inl err)
    show ?thesis
      unfolding Invoke_run [OF Inr] l Inl evs
      by (intro exI [of _ "(?rs # evs) @ [EvError err ''run'']"])
         (simp add: to_trace(8) del: handle_all.simps)
  next
    case r: (Inr result)
    show ?thesis
      unfolding Invoke_run [OF Inr] l r evs
      by (intro exI [of _ "(?rs # evs) @ [EvRunEnd result n]"])
         (simp add: to_trace(8) del: handle_all.simps)
  qed
qed

text \<open>
  C3, as the code has it. After any sequence of handler calls on a new manager, the
  tool-call ids in the nested-run map are exactly those for which \<^verbatim>\<open>OnToolCallStart\<close> was
  called; they include every id with an open tool execution. \<^verbatim>\<open>OnToolCallEnd\<close> leaves
  the map as it is, so an entry stays after its tool call has ended. The same holds of the
  manager at the end of an invocation.
\<close>

theorem nestedRunID_never_released:
  "dom (nestedRunID (handle_all (NewManager cbs parent seed) evs)) = started_calls evs \<and>
   open_calls {} evs \<subseteq> dom (nestedRunID (handle_all (NewManager cbs parent seed) evs)) \<and>
   nestedRunID (OnToolCallEnd cm toolName arguments result toolCallID err) = nestedRunID cm \<and>
   dom (nestedRunID (snd (Invoke a e config))) = started_calls (events (snd (Invoke a e config)))"
proof -
  have d: "dom (nestedRunID (handle_all (NewManager cbs parent seed) evs)) = started_calls evs"
    for cbs parent seed evs
    by (simp add: dom_nestedRunID_handle_all NewManager_def)
  moreover have "open_calls {} evs \<subseteq> started_calls evs"
    using open_calls_subset [of "{}" evs] by simp
  moreover have "nestedRunID (OnToolCallEnd cm toolName arguments result toolCallID err)
                   = nestedRunID cm"
    by (simp add: handler_defs Let_def split: option.splits)
  moreover have "dom (nestedRunID (snd (Invoke a e config)))
                   = started_calls (events (snd (Invoke a e config)))"
  proof -
    from Invoke_reachable [of a e config] obtain evs' where
      "snd (Invoke a e config) =
         handle_all (NewManager (mergeCallbacks a (Callbacks config)) (ParentRunID config)
                       (uuid_seed e)) evs'"
      by blast
    then show ?thesis
      by (simp add: d events_handle_all events_NewManager)
  qed
  ultimately show ?thesis by simp
qed

text \<open>
  The claimed equivalence fails after a tool call has started and ended: its id is still
  in the map and has no open execution.
\<close>

theorem nestedRunID_released_counterexample:
  "nestedRunID (handle_all (NewManager [] None 0)
      [EvToolCallStart ''echo'' (Some []) ''call_1'',
       EvToolCallEnd ''echo'' (Some []) (VString ''{}'') ''call_1'' None]) ''call_1'' = Some 1 \<and>
   ''call_1'' \<notin> open_calls {}
      [EvToolCallStart ''echo'' (Some []) ''call_1'',
       EvToolCallEnd ''echo'' (Some []) (VString ''{}'') ''call_1'' None]"
  by (simp add: handler_defs NewManager_def Let_def)

section \<open>Tool calls with malformed arguments\<close>

text \<open>
  C4. When the arguments of a requested tool call do not parse, the invocation broadcasts
  \<^verbatim>\<open>OnToolCallEnd\<close> for its id without any \<^verbatim>\<open>OnToolCallStart\<close> before it, and under the
  run id of the invocation, since no nested run was created for the id.
\<close>

theorem malformed_arguments_end_without_start:
  "fst (Invoke echo_agent (env_of (calling_endpoint ''echo'' ''{'')) (prompt_config ''hi''))
     = Inl (ParseToolArguments (External ''unexpected end of JSON input'')) \<and>
   emitted (snd (Invoke echo_agent (env_of (calling_endpoint ''echo'' ''{''))
                   (prompt_config ''hi'')))
     = [(EvRunStart ''gpt-4o'' ''hi'' False, 0, None),
        (EvGenerationStart 1 [UserMessage ''hi''] ''gpt-4o'', 0, None),
        (EvGenerationEnd ''tool_calls'' []
           [\<lparr>tc_ID = ''call_1'', tc_Name = ''echo'', tc_Arguments = ''{''\<rparr>] (0, 0, 0), 0, None),
        (EvToolCallEnd ''echo'' None VNil ''call_1''
           (Some (External ''unexpected end of JSON input'')), 0, None),
        (EvError (ParseToolArguments (External ''unexpected end of JSON input'')) ''tool'',
         0, None),
        (EvError (ParseToolArguments (External ''unexpected end of JSON input'')) ''run'',
         0, None)]"
  by (simp add: run_eval)

section \<open>The iteration limit\<close>

lemma loop_body_always_Continue:
  assumes "\<forall>it p. \<exists>c ch rest. complete e it p = Inr c \<and> choices c = ch # rest \<and>
             tool_calls ch \<noteq> [] \<and>
             (\<forall>cm. \<exists>tms cm'. executeToolCalls a e (tool_calls ch) cm = (Inr tms, cm'))"
  shows "\<exists>m' cm'. loop_body a e it msgs cm = Continue m' cm'"
proof -
  from assms obtain c ch rest where
    c: "complete e it (request_params a msgs) = Inr c" "choices c = ch # rest"
       "tool_calls ch \<noteq> []"
    and ok: "\<forall>cm. \<exists>tms cm'. executeToolCalls a e (tool_calls ch) cm = (Inr tms, cm')"
    by blast
  from ok obtain tms cm' where
    "executeToolCalls a e (tool_calls ch)
       (handle_all cm [EvGenerationStart it msgs (model a),
          EvGenerationEnd (finish_reason ch) (content ch) (tool_calls ch) (usage c)])
     = (Inr tms, cm')"
    by blast
  then show ?thesis
    by (simp add: loop_body_tools [OF c] del: handle_all.simps)
qed

lemma executeLoop_from_exhausts:
  assumes "\<forall>it p. \<exists>c ch rest. complete e it p = Inr c \<and> choices c = ch # rest \<and>
             tool_calls ch \<noteq> [] \<and>
             (\<forall>cm. \<exists>tms cm'. executeToolCalls a e (tool_calls ch) cm = (Inr tms, cm'))"
  shows "\<exists>evs. executeLoop_from a e maxIter iteration messages cm =
                 (Inl (MaxIterationsReached maxIter), max iteration maxIter, handle_all cm evs) \<and>
               int (length (filter is_GenerationStart evs)) = max 0 (maxIter - iteration)"
  using assms
proof (induction a e maxIter iteration messages cm rule: executeLoop_from.induct)
  case (1 a e maxIter iteration messages cm)
  show ?case
  proof (cases "iteration < maxIter")
    case False
    show ?thesis
      unfolding executeLoop_from_stop [OF False]
      using False
      by (intro exI [of _ "[EvError (MaxIterationsReached maxIter) ''run'']"]) simp
  next
    case True
    from loop_body_always_Continue [OF "1.prems"] obtain m' cm' where
      cont: "loop_body a e (iteration + 1) messages cm = Continue m' cm'"
      by blast
    from loop_body_trace [of a e "iteration + 1" messages cm] cont obtain evs1 where
      evs1: "cm' = handle_all cm evs1" "length (filter is_GenerationStart evs1) = 1"
      by fastforce
    from "1.IH" [OF True cont "1.prems"] obtain evs2 where
      evs2: "executeLoop_from a e maxIter (iteration + 1) m' cm' =
               (Inl (MaxIterationsReached maxIter), max (iteration + 1) maxIter,
                handle_all cm' evs2)"
            "int (length (filter is_GenerationStart evs2)) = max 0 (maxIter - (iteration + 1))"
      by blast
    show ?thesis
      unfolding executeLoop_from_Continue [OF True cont] evs2(1)
      using True evs1 evs2(2)
      by (intro exI [of _ "evs1 @ evs2"]) (simp add: handle_all_append)
  qed
qed

text \<open>
  C5, as the code has it. When every answer of the endpoint asks for at least one tool
  call and every batch of requested tool calls is dispatched without error, the loop
  makes as many generation steps as the cap says (none when the cap is negative) and
  \<^verbatim>\<open>Invoke\<close> returns the iteration-limit error. The cap is \<^verbatim>\<open>MaxIterations\<close> of the
  invocation when it is set and the agent's own otherwise, which a new agent has at 10.
\<close>

theorem iteration_limit:
  assumes "\<forall>it p. \<exists>c ch rest. complete e it p = Inr c \<and> choices c = ch # rest \<and>
             tool_calls ch \<noteq> [] \<and>
             (\<forall>cm. \<exists>tms cm'. executeToolCalls a e (tool_calls ch) cm = (Inr tms, cm'))"
      and "buildMessages config = Inr messages"
  shows "fst (Invoke a e config) =
           Inl (MaxIterationsReached
                  (case MaxIterations config of None \<Rightarrow> maxIterations a | Some n \<Rightarrow> n)) \<and>
         int (length (filter is_GenerationStart (events (snd (Invoke a e config))))) =
           max 0 (case MaxIterations config of None \<Rightarrow> maxIterations a | Some n \<Rightarrow> n) \<and>
         maxIterations (CreateAgentWithOutput is_string c ts) = 10"
proof -
  let ?cm0 = "NewManager (mergeCallbacks a (Callbacks config)) (ParentRunID config) (uuid_seed e)"
  let ?rs = "EvRunStart (model a) (if Prompt config = [] then ''messages'' else Prompt config)
               (\<not> string_output a)"
  let ?cap = "case MaxIterations config of None \<Rightarrow> maxIterations a | Some n \<Rightarrow> n"
  from executeLoop_from_exhausts [OF assms(1), of ?cap 0 messages "handle_all ?cm0 [?rs]"]
  obtain evs where
    evs: "executeLoop_from a e ?cap 0 messages (handle_all ?cm0 [?rs]) =
            (Inl (MaxIterationsReached ?cap), max 0 ?cap, handle_all ?cm0 (?rs # evs))"
         "int (length (filter is_GenerationStart evs)) = max 0 ?cap"
    by (auto simp: to_trace(8) simp del: handle_all.simps)
  have "fst (Invoke a e config) = Inl (MaxIterationsReached ?cap)"
    unfolding Invoke_run [OF assms(2)] evs(1) by simp
  moreover have "int (length (filter is_GenerationStart (events (snd (Invoke a e config)))))
                   = max 0 ?cap"
    unfolding Invoke_run [OF assms(2)] evs(1)
    using evs(2)
    by (simp add: to_trace(8) events_handle_all events_NewManager del: handle_all.simps)
  moreover have "maxIterations (CreateAgentWithOutput is_string c ts) = 10"
    by (simp add: CreateAgentWithOutput_def)
  ultimately show ?thesis by simp
qed

text \<open>
  With \<^verbatim>\<open>MaxIterations = 1\<close> the invocation fails after one generation step; without an
  override, after ten.
\<close>

lemma echo_always_calls:
  "\<forall>it p. \<exists>c ch rest. complete (env_of (calling_endpoint ''echo'' ''{}'')) it p = Inr c \<and>
      choices c = ch # rest \<and> tool_calls ch \<noteq> [] \<and>
      (\<forall>cm. \<exists>tms cm'. executeToolCalls echo_agent (env_of (calling_endpoint ''echo'' ''{}''))
                          (tool_calls ch) cm = (Inr tms, cm'))"
  by (simp add: run_eval)

theorem iteration_limit_witness:
  "fst (Invoke echo_agent (env_of (calling_endpoint ''echo'' ''{}''))
          ((prompt_config ''hi'')\<lparr>MaxIterations := Some 1\<rparr>))
     = Inl (MaxIterationsReached 1) \<and>
   length (filter is_GenerationStart (events (snd
      (Invoke echo_agent (env_of (calling_endpoint ''echo'' ''{}''))
          ((prompt_config ''hi'')\<lparr>MaxIterations := Some 1\<rparr>))))) = 1 \<and>
   fst (Invoke echo_agent (env_of (calling_endpoint ''echo'' ''{}'')) (prompt_config ''hi''))
     = Inl (MaxIterationsReached 10) \<and>
   length (filter is_GenerationStart (events (snd
      (Invoke echo_agent (env_of (calling_endpoint ''echo'' ''{}'')) (prompt_config ''hi''))))) = 10"
proof -
  have b1: "buildMessages ((prompt_config ''hi'')\<lparr>MaxIterations := Some 1\<rparr>) = Inr [UserMessage ''hi'']"
    by (simp add: buildMessages_def prompt_config_def)
  have b2: "buildMessages (prompt_config ''hi'') = Inr [UserMessage ''hi'']"
    by (simp add: buildMessages_def prompt_config_def)
  show ?thesis
    using iteration_limit [OF echo_always_calls b1] iteration_limit [OF echo_always_calls b2]
    by (simp add: prompt_config_def echo_agent_eval)
qed

text \<open>
  The claim as stated fails when a requested tool call fails: the endpoint asks for a tool
  that is not registered, and the invocation with a cap of 2 returns the tool's error
  after one generation step.
\<close>

theorem iteration_limit_tool_failure_counterexample:
  "fst (Invoke echo_agent (env_of (calling_endpoint ''nope'' ''{}''))
          ((prompt_config ''hi'')\<lparr>MaxIterations := Some 2\<rparr>))
     = Inl (ToolNotFound ''nope'') \<and>
   events (snd (Invoke echo_agent (env_of (calling_endpoint ''nope'' ''{}''))
          ((prompt_config ''hi'')\<lparr>MaxIterations := Some 2\<rparr>)))
     = [EvRunStart ''gpt-4o'' ''hi'' False,
        EvGenerationStart 1 [UserMessage ''hi''] ''gpt-4o'',
        EvGenerationEnd ''tool_calls'' []
          [\<lparr>tc_ID = ''call_1'', tc_Name = ''nope'', tc_Arguments = ''{}''\<rparr>] (0, 0, 0),
        EvToolCallStart ''nope'' (Some []) ''call_1'',
        EvToolCallEnd ''nope'' (Some []) VNil ''call_1'' (Some (ToolNotFound ''nope'')),
        EvError (ToolNotFound ''nope'') ''tool'',
        EvError (ToolNotFound ''nope'') ''run'']"
  by (simp add: run_eval)

section \<open>Tool results\<close>

lemma executeToolCall_message:
  "executeToolCall a e tc cm = (Inr msg, cm') \<Longrightarrow>
     \<exists>entry n text. map_of (registry a) (findToolID (registry a) (tc_Name tc)) = Some entry \<and>
       resultToString e (fst (Execute (fst entry) n (tc_Arguments tc))) = Inr text \<and>
       msg = ToolMessage text (tc_ID tc)"
  by (auto simp: executeToolCall_def run_executor_def tool_not_found_def Let_def
           split: sum.splits option.splits prod.splits if_splits;
      metis fst_conv)

lemma executeToolCalls_from_messages:
  "executeToolCalls_from a e acc tcs cm = (Inr msgs, cm') \<Longrightarrow>
     \<exists>new. msgs = acc @ new \<and>
       list_all2 (\<lambda>tc msg. \<exists>entry n text.
                    map_of (registry a) (findToolID (registry a) (tc_Name tc)) = Some entry \<and>
                    resultToString e (fst (Execute (fst entry) n (tc_Arguments tc))) = Inr text \<and>
                    msg = ToolMessage text (tc_ID tc)) tcs new"
proof (induction tcs arbitrary: acc cm)
  case Nil
  then show ?case by simp
next
  case (Cons tc tcs)
  obtain r cm1 where r: "executeToolCall a e tc cm = (r, cm1)"
    by (cases "executeToolCall a e tc cm")
  show ?case
  proof (cases r)
    case (Inl err)
    with Cons.prems r show ?thesis by simp
  next
    case (Inr msg)
    with Cons.prems r have
      rest: "executeToolCalls_from a e (acc @ [msg]) tcs cm1 = (Inr msgs, cm')"
      by simp
    from Cons.IH [OF rest] obtain new where
      new: "msgs = (acc @ [msg]) @ new"
           "list_all2 (\<lambda>tc msg. \<exists>entry n text.
                    map_of (registry a) (findToolID (registry a) (tc_Name tc)) = Some entry \<and>
                    resultToString e (fst (Execute (fst entry) n (tc_Arguments tc))) = Inr text \<and>
                    msg = ToolMessage text (tc_ID tc)) tcs new"
      by blast
    from executeToolCall_message [of a e tc cm msg cm1] r Inr have
      "\<exists>entry n text. map_of (registry a) (findToolID (registry a) (tc_Name tc)) = Some entry \<and>
         resultToString e (fst (Execute (fst entry) n (tc_Arguments tc))) = Inr text \<and>
         msg = ToolMessage text (tc_ID tc)"
      by simp
    with new show ?thesis
      by (intro exI [of _ "msg # new"]) simp
  qed
qed

text \<open>
  C6. \<^verbatim>\<open>resultToString\<close> turns a nil result into the empty string, returns a string and
  the contents of a byte slice unchanged, and gives for any other value what
  \<^verbatim>\<open>json.Marshal\<close> gives. When a batch of tool calls succeeds, its tool messages are, call
  by call, that text of the result of the executor registered for the call, under the id
  of the call.
\<close>

theorem resultToString_normalizes:
  "resultToString e VNil = Inr [] \<and>
   resultToString e (VString s) = Inr s \<and>
   resultToString e (VBytes b) = Inr b \<and>
   resultToString e (VOther h) = json_marshal e (VOther h) \<and>
   (executeToolCalls a e tcs cm = (Inr msgs, cm') \<longrightarrow>
      list_all2 (\<lambda>tc msg. \<exists>entry n text.
                   map_of (registry a) (findToolID (registry a) (tc_Name tc)) = Some entry \<and>
                   resultToString e (fst (Execute (fst entry) n (tc_Arguments tc))) = Inr text \<and>
                   msg = ToolMessage text (tc_ID tc)) tcs msgs)"
proof -
  have "resultToString e (VOther h) = json_marshal e (VOther h)"
    by (simp add: resultToString_def split: sum.splits)
  moreover have "executeToolCalls a e tcs cm = (Inr msgs, cm') \<longrightarrow>
      list_all2 (\<lambda>tc msg. \<exists>entry n text.
                   map_of (registry a) (findToolID (registry a) (tc_Name tc)) = Some entry \<and>
                   resultToString e (fst (Execute (fst entry) n (tc_Arguments tc))) = Inr text \<and>
                   msg = ToolMessage text (tc_ID tc)) tcs msgs"
    using executeToolCalls_from_messages [of a e "[]" tcs cm msgs cm']
    by (auto simp: executeToolCalls_def)
  ultimately show ?thesis
    by (simp add: resultToString_def)
qed

theorem resultToString_normalizes_witness:
  "fst (executeToolCalls echo_agent (env_of text_endpoint)
          [\<lparr>tc_ID = ''call_1'', tc_Name = ''echo'', tc_Arguments = ''{}''\<rparr>]
          (NewManager [] None 0))
     = Inr [ToolMessage ''{}'' ''call_1''] \<and>
   list_all2 (\<lambda>tc msg. \<exists>entry n text.
                map_of (registry echo_agent) (findToolID (registry echo_agent) (tc_Name tc))
                  = Some entry \<and>
                resultToString (env_of text_endpoint) (fst (Execute (fst entry) n (tc_Arguments tc)))
                  = Inr text \<and>
                msg = ToolMessage text (tc_ID tc))
     [\<lparr>tc_ID = ''call_1'', tc_Name = ''echo'', tc_Arguments = ''{}''\<rparr>]
     [ToolMessage ''{}'' ''call_1'']"
proof -
  obtain r cm' where r: "executeToolCalls echo_agent (env_of text_endpoint)
          [\<lparr>tc_ID = ''call_1'', tc_Name = ''echo'', tc_Arguments = ''{}''\<rparr>]
          (NewManager [] None 0) = (r, cm')"
    by (cases "executeToolCalls echo_agent (env_of text_endpoint)
          [\<lparr>tc_ID = ''call_1'', tc_Name = ''echo'', tc_Arguments = ''{}''\<rparr>]
          (NewManager [] None 0)")
  then have v: "r = Inr [ToolMessage ''{}'' ''call_1'']"
    by (simp add: run_eval)
  from r v resultToString_normalizes [of "env_of text_endpoint" _ _ _ echo_agent
      "[\<lparr>tc_ID = ''call_1'', tc_Name = ''echo'', tc_Arguments = ''{}''\<rparr>]"
      "NewManager [] None 0" "[ToolMessage ''{}'' ''call_1'']" cm']
  show ?thesis by simp
qed

section \<open>A response without choices\<close>

lemma generation_start_of_pass:
  assumes "filter is_GenerationStart evs = [EvGenerationStart it msgs mdl]"
      and "EvGenerationStart k msgs' mdl' \<in> set evs"
  shows "k = it \<and> msgs' = msgs"
proof -
  from assms(2) have "EvGenerationStart k msgs' mdl' \<in> set (filter is_GenerationStart evs)"
    by simp
  with assms(1) show ?thesis by simp
qed

lemma executeLoop_from_no_choices_at:
  "\<exists>evs. snd (snd (executeLoop_from a e maxIter iteration messages cm)) = handle_all cm evs \<and>
     (\<forall>k msgs c. EvGenerationStart k msgs (model a) \<in> set evs \<longrightarrow>
        complete e k (request_params a msgs) = Inr c \<longrightarrow> choices c = [] \<longrightarrow>
          fst (executeLoop_from a e maxIter iteration messages cm) = Inl NoChoices \<and>
          (\<exists>pre. evs = pre @ [EvGenerationStart k msgs (model a),
                              EvError NoChoices ''generation'']))"
proof (induction a e maxIter iteration messages cm rule: executeLoop_from.induct)
  case (1 a e maxIter iteration messages cm)
  show ?case
  proof (cases "iteration < maxIter")
    case False
    show ?thesis
      unfolding executeLoop_from_stop [OF False]
      by (intro exI [of _ "[EvError (MaxIterationsReached maxIter) ''run'']"]) simp
  next
    case True
    from loop_body_trace [of a e "iteration + 1" messages cm] obtain evs1 where
      evs1: "(case loop_body a e (iteration + 1) messages cm of
                Return r cm' \<Rightarrow> cm' | Continue m cm' \<Rightarrow> cm') = handle_all cm evs1"
            "filter is_GenerationStart evs1 = [EvGenerationStart (iteration + 1) messages (model a)]"
      by blast
    show ?thesis
    proof (cases "loop_body a e (iteration + 1) messages cm")
      case (Return r cm')
      have "fst (r, iteration + 1, cm') = Inl NoChoices \<and>
            (\<exists>pre. evs1 = pre @ [EvGenerationStart k msgs (model a),
                                 EvError NoChoices ''generation''])"
        if k: "EvGenerationStart k msgs (model a) \<in> set evs1"
          and c: "complete e k (request_params a msgs) = Inr c" and n: "choices c = []"
        for k msgs c
      proof -
        from generation_start_of_pass [OF evs1(2) k] have
          km: "k = iteration + 1" "msgs = messages"
          by simp_all
        from loop_body_no_choices [OF c [unfolded km] n, of cm] Return have
          r: "r = Inl NoChoices"
          and cm': "cm' = handle_all cm [EvGenerationStart (iteration + 1) messages (model a),
                                        EvError NoChoices ''generation'']"
          by simp_all
        from evs1(1) Return cm' have
          "events (handle_all cm evs1) =
             events (handle_all cm [EvGenerationStart (iteration + 1) messages (model a),
                                    EvError NoChoices ''generation''])"
          by simp
        then have "evs1 = [EvGenerationStart (iteration + 1) messages (model a),
                           EvError NoChoices ''generation'']"
          by (simp add: events_handle_all del: handle_all.simps)
        with r km show ?thesis by simp
      qed
      with evs1(1) Return show ?thesis
        unfolding executeLoop_from_Return [OF True Return]
        by (intro exI [of _ evs1]) simp
    next
      case (Continue messages' cm')
      from "1.IH" [OF True Continue] obtain evs2 where
        evs2: "snd (snd (executeLoop_from a e maxIter (iteration + 1) messages' cm'))
                 = handle_all cm' evs2"
        and at: "\<And>k msgs c. EvGenerationStart k msgs (model a) \<in> set evs2 \<Longrightarrow>
               complete e k (request_params a msgs) = Inr c \<Longrightarrow> choices c = [] \<Longrightarrow>
               fst (executeLoop_from a e maxIter (iteration + 1) messages' cm') = Inl NoChoices \<and>
               (\<exists>pre. evs2 = pre @ [EvGenerationStart k msgs (model a),
                                    EvError NoChoices ''generation''])"
        by blast
      have "fst (executeLoop_from a e maxIter (iteration + 1) messages' cm') = Inl NoChoices \<and>
            (\<exists>pre. evs1 @ evs2 = pre @ [EvGenerationStart k msgs (model a),
                                        EvError NoChoices ''generation''])"
        if k: "EvGenerationStart k msgs (model a) \<in> set (evs1 @ evs2)"
          and c: "complete e k (request_params a msgs) = Inr c" and n: "choices c = []"
        for k msgs c
      proof (cases "EvGenerationStart k msgs (model a) \<in> set evs1")
        case True
        from generation_start_of_pass [OF evs1(2) True] have
          km: "k = iteration + 1" "msgs = messages"
          by simp_all
        from loop_body_no_choices [OF c [unfolded km] n, of cm] Continue have False
          by simp
        then show ?thesis ..
      next
        case False
        with k have "EvGenerationStart k msgs (model a) \<in> set evs2"
          by simp
        from at [OF this c n] obtain pre where
          "fst (executeLoop_from a e maxIter (iteration + 1) messages' cm') = Inl NoChoices"
          "evs2 = pre @ [EvGenerationStart k msgs (model a), EvError NoChoices ''generation'']"
          by blast
        then show ?thesis
          by (intro conjI exI [of _ "evs1 @ pre"]) simp_all
      qed
      with evs1(1) evs2 Continue show ?thesis
        unfolding executeLoop_from_Continue [OF True Continue]
        by (intro exI [of _ "evs1 @ evs2"]) (simp add: handle_all_append)
    qed
  qed
qed

text \<open>
  C10. Every \<^verbatim>\<open>OnGenerationStart\<close> of a trace announces the completion call of its
  iteration with its messages. When that call succeeds with a response that has no
  choices, \<^verbatim>\<open>Invoke\<close> returns the no-choices error, and after that
  \<^verbatim>\<open>OnGenerationStart\<close> the trace holds only \<^verbatim>\<open>OnError\<close> with stage \<^verbatim>\<open>generation\<close>
  and the \<^verbatim>\<open>OnError\<close> with stage \<^verbatim>\<open>run\<close> of \<^verbatim>\<open>Invoke\<close>: no \<^verbatim>\<open>OnGenerationEnd\<close>
  for the iteration, and no further iteration.
\<close>

theorem no_choices_fails:
  assumes "EvGenerationStart k msgs (model a) \<in> set (events (snd (Invoke a e config)))"
      and "complete e k (request_params a msgs) = Inr c"
      and "choices c = []"
  shows "fst (Invoke a e config) = Inl NoChoices \<and>
         (\<exists>pre. events (snd (Invoke a e config)) =
            pre @ [EvGenerationStart k msgs (model a), EvError NoChoices ''generation'',
                   EvError NoChoices ''run''])"
proof (cases "buildMessages config")
  case (Inl err)
  with assms(1) have False
    by (simp add: Invoke_input_error [OF Inl] events_handle_all events_NewManager
          del: handle_all.simps)
  then show ?thesis ..
next
  case (Inr messages)
  let ?cm0 = "NewManager (mergeCallbacks a (Callbacks config)) (ParentRunID config) (uuid_seed e)"
  let ?rs = "EvRunStart (model a) (if Prompt config = [] then ''messages'' else Prompt config)
               (\<not> string_output a)"
  let ?cap = "case MaxIterations config of None \<Rightarrow> maxIterations a | Some n \<Rightarrow> n"
  obtain r n cm2 where l: "executeLoop_from a e ?cap 0 messages (handle_all ?cm0 [?rs]) = (r, n, cm2)"
    by (cases "executeLoop_from a e ?cap 0 messages (handle_all ?cm0 [?rs])") auto
  from executeLoop_from_no_choices_at [of a e ?cap 0 messages "handle_all ?cm0 [?rs]"] l
  obtain evs where
    evs: "cm2 = handle_all ?cm0 (?rs # evs)"
    and at: "\<And>k msgs c. EvGenerationStart k msgs (model a) \<in> set evs \<Longrightarrow>
               complete e k (request_params a msgs) = Inr c \<Longrightarrow> choices c = [] \<Longrightarrow>
               r = Inl NoChoices \<and>
               (\<exists>pre. evs = pre @ [EvGenerationStart k msgs (model a),
                                   EvError NoChoices ''generation''])"
    by (auto simp: to_trace(8) simp del: handle_all.simps)
  have ev: "events (snd (Invoke a e config)) =
              ?rs # evs @ [case r of Inl err \<Rightarrow> EvError err ''run''
                           | Inr result \<Rightarrow> EvRunEnd result n]"
    unfolding Invoke_run [OF Inr] l evs
    by (cases r)
       (simp_all add: to_trace(8) events_handle_all events_NewManager del: handle_all.simps)
  from assms(1) have "EvGenerationStart k msgs (model a) \<in> set evs"
    unfolding ev by (cases r) auto
  from at [OF this assms(2,3)] obtain pre where
    r: "r = Inl NoChoices"
    and pre: "evs = pre @ [EvGenerationStart k msgs (model a), EvError NoChoices ''generation'']"
    by blast
  have "fst (Invoke a e config) = Inl NoChoices"
    unfolding Invoke_run [OF Inr] l r by simp
  moreover have "events (snd (Invoke a e config)) =
            (?rs # pre) @ [EvGenerationStart k msgs (model a), EvError NoChoices ''generation'',
                   EvError NoChoices ''run'']"
    unfolding ev r pre by simp
  ultimately show ?thesis by blast
qed

theorem no_choices_fails_witness:
  "fst (Invoke echo_agent (env_of empty_endpoint) (prompt_config ''hi'')) = Inl NoChoices \<and>
   (\<exists>pre. events (snd (Invoke echo_agent (env_of empty_endpoint) (prompt_config ''hi''))) =
      pre @ [EvGenerationStart 1 [UserMessage ''hi''] ''gpt-4o'',
             EvError NoChoices ''generation'', EvError NoChoices ''run''])"
proof -
  have g: "EvGenerationStart 1 [UserMessage ''hi''] (model echo_agent)
             \<in> set (events (snd (Invoke echo_agent (env_of empty_endpoint)
                                   (prompt_config ''hi''))))"
    by (simp add: run_eval)
  have c: "complete (env_of empty_endpoint) 1 (request_params echo_agent [UserMessage ''hi''])
           = Inr \<lparr>choices = [], usage = (0, 0, 0)\<rparr>"
    by (simp add: env_of_def empty_endpoint_def)
  from no_choices_fails [OF g c] show ?thesis
    by (simp add: echo_agent_eval)
qed

end
